theory Spec2Isabelle
  imports Main "HOL-Library.Word"
begin

unbundle bit_operations_syntax

section \<open>Go values used by the embedding\<close>

text \<open>
  Go's \<open>int\<close> (64 bits on the platforms the server runs on), \<open>int64\<close>, \<open>int32\<close> and
  \<open>uint32\<close> are words: \<open>+\<close> and \<open>-\<close> wrap, signed comparisons are \<open>\<le>s\<close> and \<open><s\<close>,
  \<open>>>\<close> on a signed operand is \<open>signed_drop_bit\<close>.  A run-time panic is a value.
\<close>

type_synonym go_int = "64 word"
type_synonym int64 = "64 word"
type_synonym int32 = "32 word"
type_synonym uint32 = "32 word"

datatype panic = Panic string

definition bindP :: "panic + 'a \<Rightarrow> ('a \<Rightarrow> panic + 'b) \<Rightarrow> panic + 'b" where
  "bindP m f = (case m of Inl p \<Rightarrow> Inl p | Inr x \<Rightarrow> f x)"

section \<open>datastruct/dict/concurrent.go\<close>

text \<open>
  \<open>interface{}\<close> values: \<open>None\<close> is the nil interface.  A \<open>Shard\<close> is its map; the
  mutex has no effect on a sequential run.  A \<open>*ConcurrentDict\<close> is an option
  (\<open>None\<close> is the nil pointer), and a method that mutates returns the new struct.
\<close>

type_synonym 'v iface = "'v option"
type_synonym 'v Shard = "string \<rightharpoonup> 'v iface"

record 'v ConcurrentDict =
  table :: "'v Shard list"
  count :: int32
  shardCount :: go_int

definition computeCapacity :: "go_int \<Rightarrow> go_int" where
  "computeCapacity param =
     (if param \<le>s 16 then 16
      else
        let n = param - 1;
            n = n OR signed_drop_bit 1 n;
            n = n OR signed_drop_bit 2 n;
            n = n OR signed_drop_bit 4 n;
            n = n OR signed_drop_bit 8 n;
            n = n OR signed_drop_bit 16 n
        in if n <s 0 then 2147483647 else n + 1)"

text \<open>\<open>make\<close> panics on a negative length; any other length is taken to be allocated.\<close>

definition MakeConcurrent :: "go_int \<Rightarrow> panic + 'v ConcurrentDict option" where
  "MakeConcurrent requested =
     (if requested \<le>s 0 then Inr None
      else if requested = 1 then
        Inr (Some \<lparr>table = [Map.empty], count = 0, shardCount = requested\<rparr>)
      else
        let rounded = computeCapacity requested in
        if rounded <s 0 then Inl (Panic ''makeslice: len out of range'')
        else Inr (Some \<lparr>table = replicate (unat rounded) Map.empty, count = 0,
                         shardCount = rounded\<rparr>))"

definition prime32 :: uint32 where
  "prime32 = 16777619"

definition fnv32 :: "string \<Rightarrow> uint32" where
  "fnv32 key = foldl (\<lambda>hash c. (hash * prime32) XOR of_nat (of_char c)) 2166136261 key"

definition spread :: "'v ConcurrentDict option \<Rightarrow> string \<Rightarrow> panic + uint32" where
  "spread dict key =
     (case dict of
        None \<Rightarrow> Inl (Panic ''dict is nil !'')
      | Some d \<Rightarrow>
          if length (table d) = 0 then Inr 0
          else
            let hashcode = fnv32 key;
                tableSize = (of_nat (length (table d)) :: uint32)
            in Inr (hashcode AND (tableSize - 1)))"

definition getShard :: "'v ConcurrentDict option \<Rightarrow> uint32 \<Rightarrow> panic + 'v Shard" where
  "getShard dict index =
     (case dict of
        None \<Rightarrow> Inl (Panic ''dict is nil !'')
      | Some d \<Rightarrow>
          if unat index < length (table d) then Inr (table d ! unat index)
          else Inl (Panic ''index out of range''))"

text \<open>Writing through the shard pointer held in \<open>table[index]\<close>.\<close>

definition store_shard :: "'v ConcurrentDict \<Rightarrow> uint32 \<Rightarrow> 'v Shard \<Rightarrow> 'v ConcurrentDict" where
  "store_shard d index shard = d\<lparr>table := (table d)[unat index := shard]\<rparr>"

definition addCount :: "'v ConcurrentDict option \<Rightarrow> panic + 'v ConcurrentDict" where
  "addCount dict =
     (case dict of
        None \<Rightarrow> Inl (Panic ''nil pointer dereference'')
      | Some d \<Rightarrow> Inr (d\<lparr>count := count d + 1\<rparr>))"

definition decreaseCount :: "'v ConcurrentDict option \<Rightarrow> panic + 'v ConcurrentDict" where
  "decreaseCount dict =
     (case dict of
        None \<Rightarrow> Inl (Panic ''nil pointer dereference'')
      | Some d \<Rightarrow> Inr (d\<lparr>count := count d - 1\<rparr>))"

definition GetWithLock :: "'v ConcurrentDict option \<Rightarrow> string \<Rightarrow> panic + ('v iface \<times> bool)" where
  "GetWithLock dict key =
     (case dict of
        None \<Rightarrow> Inl (Panic ''dict is nil'')
      | Some d \<Rightarrow>
          bindP (spread dict key) (\<lambda>index.
          bindP (getShard dict index) (\<lambda>s.
            case s key of None \<Rightarrow> Inr (None, False) | Some val \<Rightarrow> Inr (val, True))))"

definition Get :: "'v ConcurrentDict option \<Rightarrow> string \<Rightarrow> panic + ('v iface \<times> bool)" where
  "Get dict key =
     (case dict of
        None \<Rightarrow> Inl (Panic ''dict is nil !'')
      | Some d \<Rightarrow>
          bindP (spread dict key) (\<lambda>shardIndex.
          bindP (getShard dict shardIndex) (\<lambda>shard.
            case shard key of None \<Rightarrow> Inr (None, False) | Some val \<Rightarrow> Inr (val, True))))"

definition Len :: "'v ConcurrentDict option \<Rightarrow> panic + go_int" where
  "Len dict =
     (case dict of
        None \<Rightarrow> Inl (Panic ''dict is nil !'')
      | Some d \<Rightarrow> Inr (scast (count d)))"

definition PutWithLock ::
  "'v ConcurrentDict option \<Rightarrow> string \<Rightarrow> 'v iface \<Rightarrow> panic + (go_int \<times> 'v ConcurrentDict)" where
  "PutWithLock dict key val =
     (case dict of
        None \<Rightarrow> Inl (Panic ''dict is nil !'')
      | Some d \<Rightarrow>
          bindP (spread dict key) (\<lambda>shardIndex.
          bindP (getShard dict shardIndex) (\<lambda>shard.
            if shard key \<noteq> None then Inr (0, store_shard d shardIndex (shard(key \<mapsto> val)))
            else
              bindP (addCount dict) (\<lambda>d1.
                Inr (1, store_shard d1 shardIndex (shard(key \<mapsto> val)))))))"

definition Put ::
  "'v ConcurrentDict option \<Rightarrow> string \<Rightarrow> 'v iface \<Rightarrow> panic + (go_int \<times> 'v ConcurrentDict)" where
  "Put dict key val =
     (case dict of
        None \<Rightarrow> Inl (Panic ''dict is nil !'')
      | Some d \<Rightarrow>
          bindP (spread dict key) (\<lambda>shardIndex.
          bindP (getShard dict shardIndex) (\<lambda>shard.
            if shard key \<noteq> None then Inr (0, store_shard d shardIndex (shard(key \<mapsto> val)))
            else
              bindP (addCount dict) (\<lambda>d1.
                Inr (1, store_shard d1 shardIndex (shard(key \<mapsto> val)))))))"

definition PutIfAbsentWithLock ::
  "'v ConcurrentDict option \<Rightarrow> string \<Rightarrow> 'v iface \<Rightarrow> panic + (go_int \<times> 'v ConcurrentDict)" where
  "PutIfAbsentWithLock dict key val =
     (case dict of
        None \<Rightarrow> Inl (Panic ''dict is nil !'')
      | Some d \<Rightarrow>
          bindP (spread dict key) (\<lambda>shardIndex.
          bindP (getShard dict shardIndex) (\<lambda>shard.
            if shard key \<noteq> None then Inr (0, d)
            else
              bindP (addCount (Some (store_shard d shardIndex (shard(key \<mapsto> val))))) (\<lambda>d1.
                Inr (1, d1)))))"

definition PutIfAbsent ::
  "'v ConcurrentDict option \<Rightarrow> string \<Rightarrow> 'v iface \<Rightarrow> panic + (go_int \<times> 'v ConcurrentDict)" where
  "PutIfAbsent dict key val =
     (case dict of
        None \<Rightarrow> Inl (Panic ''dict is nil !'')
      | Some d \<Rightarrow>
          bindP (spread dict key) (\<lambda>shardIndex.
          bindP (getShard dict shardIndex) (\<lambda>shard.
            if shard key \<noteq> None then Inr (0, d)
            else
              bindP (addCount (Some (store_shard d shardIndex (shard(key \<mapsto> val))))) (\<lambda>d1.
                Inr (1, d1)))))"

definition PutIfExistsWithLock ::
  "'v ConcurrentDict option \<Rightarrow> string \<Rightarrow> 'v iface \<Rightarrow> panic + (go_int \<times> 'v ConcurrentDict)" where
  "PutIfExistsWithLock dict key val =
     (case dict of
        None \<Rightarrow> Inl (Panic ''dict is nil !'')
      | Some d \<Rightarrow>
          bindP (spread dict key) (\<lambda>shardIndex.
          bindP (getShard dict shardIndex) (\<lambda>shard.
            if shard key \<noteq> None then Inr (1, store_shard d shardIndex (shard(key \<mapsto> val)))
            else Inr (0, d))))"

definition PutIfExists ::
  "'v ConcurrentDict option \<Rightarrow> string \<Rightarrow> 'v iface \<Rightarrow> panic + (go_int \<times> 'v ConcurrentDict)" where
  "PutIfExists dict key val =
     (case dict of
        None \<Rightarrow> Inl (Panic ''dict is nil !'')
      | Some d \<Rightarrow>
          bindP (spread dict key) (\<lambda>shardIndex.
          bindP (getShard dict shardIndex) (\<lambda>shard.
            if shard key \<noteq> None then Inr (1, store_shard d shardIndex (shard(key \<mapsto> val)))
            else Inr (0, d))))"

definition RemoveWithLock ::
  "'v ConcurrentDict option \<Rightarrow> string \<Rightarrow> panic + (('v iface \<times> go_int) \<times> 'v ConcurrentDict)" where
  "RemoveWithLock dict key =
     (case dict of
        None \<Rightarrow> Inl (Panic ''dict is nil !'')
      | Some d \<Rightarrow>
          bindP (spread dict key) (\<lambda>shardIndex.
          bindP (getShard dict shardIndex) (\<lambda>shard.
            case shard key of
              Some val \<Rightarrow> Inr ((val, 1), store_shard d shardIndex (shard(key := None)))
            | None \<Rightarrow> Inr ((None, 0), d))))"

definition Remove ::
  "'v ConcurrentDict option \<Rightarrow> string \<Rightarrow> panic + (('v iface \<times> go_int) \<times> 'v ConcurrentDict)" where
  "Remove dict key =
     (case dict of
        None \<Rightarrow> Inl (Panic ''dict is nil !'')
      | Some d \<Rightarrow>
          bindP (spread dict key) (\<lambda>shardIndex.
          bindP (getShard dict shardIndex) (\<lambda>shard.
            case shard key of
              Some val \<Rightarrow> Inr ((val, 1), store_shard d shardIndex (shard(key := None)))
            | None \<Rightarrow> Inr ((None, 0), d))))"


text \<open>
  \<open>ForEach\<close>.  Go leaves the order of \<open>range\<close> over a map open, so the order the run
  time picks is a parameter \<open>ord\<close>; the consumer closure threads its captured variables
  as a state \<open>'s\<close>.  \<open>visit_entries\<close> is the inner closure \<open>f\<close> (one shard),
  \<open>visit_shards\<close> the loop over \<open>dict.table\<close>.
\<close>

fun visit_entries ::
  "('s \<Rightarrow> string \<Rightarrow> 'v iface \<Rightarrow> bool \<times> 's) \<Rightarrow> (string \<times> 'v iface) list \<Rightarrow> 's \<Rightarrow> bool \<times> 's" where
  "visit_entries consumer [] s = (True, s)"
| "visit_entries consumer ((key, val) # rest) s =
     (case consumer s key val of
        (continues, s') \<Rightarrow> if \<not> continues then (False, s') else visit_entries consumer rest s')"

fun visit_shards ::
  "('v Shard \<Rightarrow> (string \<times> 'v iface) list) \<Rightarrow> ('s \<Rightarrow> string \<Rightarrow> 'v iface \<Rightarrow> bool \<times> 's) \<Rightarrow>
   'v Shard list \<Rightarrow> 's \<Rightarrow> 's" where
  "visit_shards ord consumer [] s = s"
| "visit_shards ord consumer (shard # rest) s =
     (case visit_entries consumer (ord shard) s of
        (f, s') \<Rightarrow> if \<not> f then s' else visit_shards ord consumer rest s')"

definition ForEach ::
  "'v ConcurrentDict option \<Rightarrow> ('v Shard \<Rightarrow> (string \<times> 'v iface) list) \<Rightarrow>
   ('s \<Rightarrow> string \<Rightarrow> 'v iface \<Rightarrow> bool \<times> 's) \<Rightarrow> 's \<Rightarrow> panic + 's" where
  "ForEach dict ord consumer s =
     (case dict of
        None \<Rightarrow> Inl (Panic ''dict is nil !'')
      | Some d \<Rightarrow> Inr (visit_shards ord consumer (table d) s))"

text \<open>The closure of \<open>Keys\<close>: its captured variables are \<open>result\<close> and \<open>i\<close>.\<close>

definition Keys_consumer :: "string list \<times> nat \<Rightarrow> string \<Rightarrow> 'v iface \<Rightarrow> bool \<times> (string list \<times> nat)" where
  "Keys_consumer st key val =
     (case st of (result, i) \<Rightarrow>
        if i < length result then (True, (result[i := key], i + 1))
        else (True, (result @ [key], i)))"

definition Keys ::
  "'v ConcurrentDict option \<Rightarrow> ('v Shard \<Rightarrow> (string \<times> 'v iface) list) \<Rightarrow> panic + string list" where
  "Keys dict ord =
     (case dict of
        None \<Rightarrow> Inl (Panic ''dict is nil !'')
      | Some d \<Rightarrow>
          bindP (Len dict) (\<lambda>n.
            if n <s 0 then Inl (Panic ''makeslice: cap out of range'')
            else bindP (ForEach dict ord Keys_consumer ([], 0)) (\<lambda>st. Inr (fst st))))"

text \<open>\<open>RandomKey\<close> of a \<open>*Shard\<close>: the first key the \<open>range\<close> yields, or the empty string.\<close>

definition RandomKey :: "'v Shard option \<Rightarrow> ('v Shard \<Rightarrow> (string \<times> 'v iface) list) \<Rightarrow> panic + string" where
  "RandomKey shard ord =
     (case shard of
        None \<Rightarrow> Inl (Panic ''shard is nil !'')
      | Some m \<Rightarrow> (case ord m of [] \<Rightarrow> Inr [] | (key, _) # _ \<Rightarrow> Inr key))"

definition RandomKeys_consumer :: "string list \<times> nat \<Rightarrow> string \<Rightarrow> 'v iface \<Rightarrow> bool \<times> (string list \<times> nat)" where
  "RandomKeys_consumer st key val =
     (case st of (result, i) \<Rightarrow>
        if i < length result then (True, (result[i := key], i + 1))
        else (False, (result, i)))"

definition RandomKeys ::
  "'v ConcurrentDict option \<Rightarrow> go_int \<Rightarrow> ('v Shard \<Rightarrow> (string \<times> 'v iface) list) \<Rightarrow> panic + string list" where
  "RandomKeys dict limit ord =
     (case dict of
        None \<Rightarrow> Inl (Panic ''dict is nil !'')
      | Some d \<Rightarrow>
          if limit <s 0 then Inl (Panic ''makeslice: cap out of range'')
          else bindP (ForEach dict ord RandomKeys_consumer ([], 0)) (\<lambda>st. Inr (fst st)))"

text \<open>
  The sampling loop of \<open>RandomDistinctKeys\<close>.  The values \<open>nR.Intn(shardCount)\<close> returns
  are the list \<open>draws\<close>; the loop has no bound of its own, so running out of draws with
  fewer than \<open>limit\<close> keys collected is \<open>None\<close>: the loop is still running.  The set
  \<open>result\<close> is the list of its keys in the order they were added.  Every shard pointer
  \<open>MakeConcurrent\<close> stores is non-nil, so the \<open>s == nil\<close> branch has no counterpart.
\<close>

fun sample_keys ::
  "'v ConcurrentDict \<Rightarrow> ('v Shard \<Rightarrow> (string \<times> 'v iface) list) \<Rightarrow> go_int \<Rightarrow> nat list \<Rightarrow>
   string list \<Rightarrow> (panic + string list) option" where
  "sample_keys d ord limit [] result =
     (if (of_nat (length result) :: go_int) <s limit then None else Some (Inr result))"
| "sample_keys d ord limit (r # draws) result =
     (if (of_nat (length result) :: go_int) <s limit then
        (if length (table d) = 0 then Some (Inl (Panic ''invalid argument to Intn''))
         else
           case getShard (Some d) (of_nat r) of
             Inl p \<Rightarrow> Some (Inl p)
           | Inr s \<Rightarrow>
               (case RandomKey (Some s) ord of
                  Inl p \<Rightarrow> Some (Inl p)
                | Inr key \<Rightarrow>
                    sample_keys d ord limit draws
                      (if key \<noteq> [] \<and> key \<notin> set result then result @ [key] else result)))
      else Some (Inr result))"

definition RandomDistinctKeys ::
  "'v ConcurrentDict option \<Rightarrow> go_int \<Rightarrow> ('v Shard \<Rightarrow> (string \<times> 'v iface) list) \<Rightarrow> nat list \<Rightarrow>
   (panic + string list) option" where
  "RandomDistinctKeys dict limit ord draws =
     (case Len dict of
        Inl p \<Rightarrow> Some (Inl p)
      | Inr sz \<Rightarrow>
          if sz \<le>s limit then Some (Keys dict ord)
          else
            (case dict of
               None \<Rightarrow> Some (Inl (Panic ''nil pointer dereference''))
             | Some d \<Rightarrow>
                 (case sample_keys d ord limit draws [] of
                    None \<Rightarrow> None
                  | Some (Inl p) \<Rightarrow> Some (Inl p)
                  | Some (Inr result) \<Rightarrow>
                      if limit <s 0 then Some (Inl (Panic ''makeslice: len out of range''))
                      else Some (Inr result))))"

definition Clear :: "'v ConcurrentDict option \<Rightarrow> panic + 'v ConcurrentDict" where
  "Clear dict =
     (case dict of
        None \<Rightarrow> Inl (Panic ''nil pointer dereference'')
      | Some d \<Rightarrow>
          (case MakeConcurrent (shardCount d) of
             Inl p \<Rightarrow> Inl p
           | Inr None \<Rightarrow> Inl (Panic ''nil pointer dereference'')
           | Inr (Some fresh) \<Rightarrow> Inr fresh))"


section \<open>Byte streams: io.Reader, bufio.Reader, strconv.ParseInt\<close>

text \<open>
  A byte is a \<open>char\<close>, a \<open>[]byte\<close> a \<open>string\<close>.  A source delivers the bytes of
  \<open>pending\<close> and then fails with \<open>failure\<close> (\<open>io.EOF\<close> for a clean end); the
  \<open>bufio.Reader\<close> wrapped around it has the same two fields.
\<close>

definition CR :: char where
  "CR = CHR 0x0D"

definition LF :: char where
  "LF = CHR 0x0A"

datatype read_error = EOF | ErrUnexpectedEOF | ReadFailure string

record reader =
  pending :: string
  failure :: read_error

text \<open>
  \<open>ReadBytes(delim)\<close> and \<open>ReadString(delim)\<close>: the bytes up to and including the first
  \<open>delim\<close>; without one, the source's error (the callers drop the partial data).
\<close>

definition ReadBytes :: "reader \<Rightarrow> char \<Rightarrow> read_error + (string \<times> reader)" where
  "ReadBytes r delim =
     (if delim \<in> set (pending r) then
        Inr (takeWhile (\<lambda>c. c \<noteq> delim) (pending r) @ [delim],
             r\<lparr>pending := tl (dropWhile (\<lambda>c. c \<noteq> delim) (pending r))\<rparr>)
      else Inl (failure r))"

text \<open>
  \<open>io.ReadFull\<close> into a buffer of \<open>n\<close> bytes: a source that ends after some but not all
  of them gives \<open>io.ErrUnexpectedEOF\<close>.
\<close>

definition ReadFull :: "reader \<Rightarrow> nat \<Rightarrow> read_error + (string \<times> reader)" where
  "ReadFull r n =
     (if n \<le> length (pending r) then
        Inr (take n (pending r), r\<lparr>pending := drop n (pending r)\<rparr>)
      else Inl (if pending r \<noteq> [] \<and> failure r = EOF then ErrUnexpectedEOF else failure r))"

text \<open>
  \<open>strconv.ParseInt(s, 10, 64)\<close> of Go's standard library: an optional sign, then one or
  more decimal digits, the value within the range of \<open>int64\<close>; \<open>None\<close> is a non-nil
  \<open>err\<close>.
\<close>

definition is_digit :: "char \<Rightarrow> bool" where
  "is_digit c \<longleftrightarrow> 48 \<le> (of_char c :: nat) \<and> (of_char c :: nat) \<le> 57"

definition digits_value :: "string \<Rightarrow> nat" where
  "digits_value ds = foldl (\<lambda>n c. 10 * n + ((of_char c :: nat) - 48)) 0 ds"

definition ParseInt :: "string \<Rightarrow> int64 option" where
  "ParseInt s =
     (case s of
        [] \<Rightarrow> None
      | c # cs \<Rightarrow>
          let neg = (c = CHR ''-'');
              ds = (if c = CHR ''+'' \<or> c = CHR ''-'' then cs else s)
          in if ds = [] \<or> \<not> list_all is_digit ds then None
             else
               let un = digits_value ds
               in if \<not> neg \<and> 2 ^ 63 \<le> un then None
                  else if neg \<and> 2 ^ 63 < un then None
                  else Some (if neg then - of_nat un else of_nat un))"

definition TrimSuffix :: "string \<Rightarrow> string \<Rightarrow> string" where
  "TrimSuffix s suffix =
     (if length suffix \<le> length s \<and> drop (length s - length suffix) s = suffix
      then take (length s - length suffix) s else s)"

section \<open>redis/parser\<close>

text \<open>
  Modelled from the spec: the reply values of package \<open>protocol\<close>, whose source is not
  in the repository's files here; the spec names them as a tagged variant over status
  string, error string, 64-bit integer, bulk byte string, null bulk string, array of
  bulk byte strings and empty array.  Each constructor stands for the \<open>Make...Reply\<close>
  function of that name.
\<close>

datatype Reply =
    StatusReply string
  | ErrReply string
  | IntReply int64
  | NullBulkReply
  | BulkReply string
  | EmptyMultiBulkReply
  | MultiBulkReply "string list"

text \<open>
  \<open>Payload.Error\<close> holds either an error a read returned or the value
  \<open>errors.New(msg)\<close> that \<open>protocolError\<close> builds.
\<close>

datatype error = ReaderError read_error | ErrorsNew string

record Payload =
  Data :: "Reply option"
  Error :: "error option"

definition protocolError :: "string \<Rightarrow> Payload" where
  "protocolError msg = \<lparr>Data = None, Error = Some (ErrorsNew (''protocol error: '' @ msg))\<rparr>"

text \<open>
  A helper of the parser returns what it sent on \<open>ch\<close>, its \<open>error\<close> result
  (\<open>Inr None\<close> is nil) or the panic that stopped it, and the reader it leaves.
\<close>

type_synonym step = "Payload list \<times> (panic + read_error option) \<times> reader"

definition parseBulkString :: "string \<Rightarrow> reader \<Rightarrow> step" where
  "parseBulkString line r =
     (case line of
        [] \<Rightarrow> ([], Inl (Panic ''slice bounds out of range''), r)
      | _ # text \<Rightarrow>
          (case ParseInt text of
             None \<Rightarrow> ([protocolError (''illegal bulk number '' @ text)], Inr None, r)
           | Some num \<Rightarrow>
               if num <s - 1 then ([protocolError (''illegal bulk number '' @ text)], Inr None, r)
               else if num = - 1 then ([\<lparr>Data = Some NullBulkReply, Error = None\<rparr>], Inr None, r)
               else if num + 2 <s 0 then ([], Inl (Panic ''makeslice: len out of range''), r)
               else
                 (case ReadFull r (unat (num + 2)) of
                    Inl err \<Rightarrow> ([], Inr (Some err), r)
                  | Inr (body, r') \<Rightarrow>
                      ([\<lparr>Data = Some (BulkReply (take (length body - 2) body)), Error = None\<rparr>],
                       Inr None, r'))))"

text \<open>
  The \<open>for\<close> loop of \<open>parseArray\<close> with \<open>k\<close> iterations left, followed by the send after
  the loop: a \<open>break\<close> leaves the loop and reaches that send too.
\<close>

fun readBulkStrings :: "nat \<Rightarrow> reader \<Rightarrow> string list \<Rightarrow> step" where
  "readBulkStrings 0 r bulkStrings =
     ([\<lparr>Data = Some (MultiBulkReply bulkStrings), Error = None\<rparr>], Inr None, r)"
| "readBulkStrings (Suc k) r bulkStrings =
     (case ReadBytes r LF of
        Inl err \<Rightarrow> ([], Inr (Some err), r)
      | Inr (line, r1) \<Rightarrow>
          if length line < 4 \<or> line ! (length line - 2) \<noteq> CR \<or> line ! 0 \<noteq> CHR ''$'' then
            ([protocolError (''illegal bulk string header '' @ line),
              \<lparr>Data = Some (MultiBulkReply bulkStrings), Error = None\<rparr>], Inr None, r1)
          else
            (case ParseInt (take (length line - 3) (drop 1 line)) of
               None \<Rightarrow>
                 ([protocolError (''illegal bulk number '' @ take (length line - 3) (drop 1 line)),
                   \<lparr>Data = Some (MultiBulkReply bulkStrings), Error = None\<rparr>], Inr None, r1)
             | Some bodyLen \<Rightarrow>
                 if bodyLen <s - 1 then
                   ([protocolError (''illegal bulk number '' @ take (length line - 3) (drop 1 line)),
                     \<lparr>Data = Some (MultiBulkReply bulkStrings), Error = None\<rparr>], Inr None, r1)
                 else if bodyLen = - 1 then readBulkStrings k r1 (bulkStrings @ [[]])
                 else if bodyLen + 2 <s 0 then ([], Inl (Panic ''makeslice: len out of range''), r1)
                 else
                   (case ReadFull r1 (unat (bodyLen + 2)) of
                      Inl err \<Rightarrow> ([], Inr (Some err), r1)
                    | Inr (body, r2) \<Rightarrow>
                        readBulkStrings k r2 (bulkStrings @ [take (length body - 2) body]))))"

definition parseArray :: "string \<Rightarrow> reader \<Rightarrow> step" where
  "parseArray line r =
     (case line of
        [] \<Rightarrow> ([], Inl (Panic ''slice bounds out of range''), r)
      | _ # text \<Rightarrow>
          (case ParseInt text of
             None \<Rightarrow> ([protocolError (''illegal array number '' @ text)], Inr None, r)
           | Some num \<Rightarrow>
               if num <s 0 then ([protocolError (''illegal array number '' @ text)], Inr None, r)
               else if num = 0 then ([\<lparr>Data = Some EmptyMultiBulkReply, Error = None\<rparr>], Inr None, r)
               else readBulkStrings (unat num) r []))"


text \<open>Every successful read consumes input, which bounds the loop of \<open>parse\<close>.\<close>

lemma ReadBytes_shrinks:
  assumes "ReadBytes r delim = Inr (line, r1)"
  shows "length (pending r1) < length (pending r)"
proof -
  have d: "delim \<in> set (pending r)" using assms by (auto simp: ReadBytes_def split: if_splits)
  then have "dropWhile (\<lambda>c. c \<noteq> delim) (pending r) \<noteq> []" by (simp add: dropWhile_eq_Nil_conv)
  then have "length (tl (dropWhile (\<lambda>c. c \<noteq> delim) (pending r))) < length (dropWhile (\<lambda>c. c \<noteq> delim) (pending r))"
    by simp
  also have "\<dots> \<le> length (pending r)" by (rule length_dropWhile_le)
  finally show ?thesis using assms d by (auto simp: ReadBytes_def)
qed

lemma ReadFull_shrinks:
  assumes "ReadFull r n = Inr (body, r1)"
  shows "length (pending r1) \<le> length (pending r)"
  using assms by (auto simp: ReadFull_def split: if_splits)

lemma parseBulkString_shrinks:
  assumes "parseBulkString line r = (sent, res, r2)"
  shows "length (pending r2) \<le> length (pending r)"
  using assms
  by (auto simp: parseBulkString_def split: list.splits option.splits if_splits sum.splits
           dest: ReadFull_shrinks)

lemma readBulkStrings_shrinks:
  "readBulkStrings k r acc = (sent, res, r2) \<Longrightarrow> length (pending r2) \<le> length (pending r)"
proof (induction k arbitrary: r acc)
  case 0
  then show ?case by simp
next
  case (Suc k)
  show ?case
  proof (cases "ReadBytes r LF")
    case (Inl err)
    then show ?thesis using Suc.prems by simp
  next
    case (Inr a)
    then obtain line r1 where a: "ReadBytes r LF = Inr (line, r1)" by (cases a) auto
    have lt: "length (pending r1) < length (pending r)" by (rule ReadBytes_shrinks[OF a])
    show ?thesis
      using Suc.prems a lt
      by (auto split: if_splits option.splits sum.splits
               dest!: Suc.IH ReadFull_shrinks)
  qed
qed

lemma parseArray_shrinks:
  assumes "parseArray line r = (sent, res, r2)"
  shows "length (pending r2) \<le> length (pending r)"
  using assms
  by (auto simp: parseArray_def split: list.splits option.splits if_splits
           dest: readBulkStrings_shrinks)

text \<open>
  \<open>parse\<close> returns the payloads sent on \<open>ch\<close>, in order, and how the goroutine ended:
  \<open>Closed\<close> after \<open>close(ch)\<close>, or \<open>Panicked\<close>.  On a source of finitely many bytes
  followed by an error the \<open>for\<close> loop always ends.
\<close>

datatype outcome = Closed | Panicked panic

definition deliver :: "Payload list \<Rightarrow> Payload list \<times> outcome \<Rightarrow> Payload list \<times> outcome" where
  "deliver sent rest = (sent @ fst rest, snd rest)"

function parse :: "reader \<Rightarrow> Payload list \<times> outcome" where
  "parse reader =
     (case ReadBytes reader LF of
        Inl err \<Rightarrow> ([\<lparr>Data = None, Error = Some (ReaderError err)\<rparr>], Closed)
      | Inr (line0, r1) \<Rightarrow>
          if length line0 \<le> 2 \<or> line0 ! (length line0 - 2) \<noteq> CR then parse r1
          else
            let line = TrimSuffix line0 [CR, LF] in
            if line ! 0 = CHR ''+'' then
              deliver [\<lparr>Data = Some (StatusReply (drop 1 line)), Error = None\<rparr>] (parse r1)
            else if line ! 0 = CHR ''-'' then
              deliver [\<lparr>Data = Some (ErrReply (drop 1 line)), Error = None\<rparr>] (parse r1)
            else if line ! 0 = CHR '':'' then
              (case ParseInt (drop 1 line) of
                 None \<Rightarrow> deliver [protocolError (''illegal number '' @ drop 1 line)] (parse r1)
               | Some i \<Rightarrow> deliver [\<lparr>Data = Some (IntReply i), Error = None\<rparr>] (parse r1))
            else if line ! 0 = CHR ''$'' then
              (case parseBulkString line r1 of
                 (sent, Inl p, r2) \<Rightarrow> (sent, Panicked p)
               | (sent, Inr (Some err), r2) \<Rightarrow>
                   (sent @ [\<lparr>Data = None, Error = Some (ReaderError err)\<rparr>], Closed)
               | (sent, Inr None, r2) \<Rightarrow> deliver sent (parse r2))
            else if line ! 0 = CHR ''*'' then
              (case parseArray line r1 of
                 (sent, Inl p, r2) \<Rightarrow> (sent, Panicked p)
               | (sent, Inr (Some err), r2) \<Rightarrow>
                   (sent @ [\<lparr>Data = None, Error = Some (ReaderError err)\<rparr>], Closed)
               | (sent, Inr None, r2) \<Rightarrow> deliver sent (parse r2))
            else parse r1)"
  by pat_completeness auto
termination
proof (relation "measure (\<lambda>r. length (pending r))")
  show "wf (measure (\<lambda>r. length (pending r)))" by simp
qed (auto dest!: ReadBytes_shrinks parseBulkString_shrinks[OF sym] parseArray_shrinks[OF sym])

declare parse.simps [simp del]

section \<open>tcp/app\_server.go\<close>

text \<open>
  The handler's registry \<open>activeConn\<close> is a set of client pointers (here numbers) and
  \<open>closing\<close> its flag.  A connection is the reader over its incoming bytes, the bytes
  written back and whether \<open>Close\<close> was called.  \<open>Waiting.Add(1)\<close> followed by
  \<open>Waiting.Done()\<close> leaves the wait group as it was.
\<close>

record EchoHandler =
  activeConn :: "nat set"
  closing :: bool

record Conn =
  incoming :: reader
  written :: string
  closed :: bool

function echo_loop :: "EchoHandler \<Rightarrow> nat \<Rightarrow> Conn \<Rightarrow> EchoHandler \<times> Conn" where
  "echo_loop h client conn =
     (case ReadBytes (incoming conn) LF of
        Inl err \<Rightarrow>
          if err = EOF then (h\<lparr>activeConn := activeConn h - {client}\<rparr>, conn)
          else (h, conn)
      | Inr (readString, r1) \<Rightarrow>
          echo_loop h client (conn\<lparr>incoming := r1, written := written conn @ readString\<rparr>))"
  by pat_completeness auto
termination
proof (relation "measure (\<lambda>(h, client, conn). length (pending (incoming conn)))")
  show "wf (measure (\<lambda>(h, client, conn). length (pending (incoming conn))))" by simp
qed (auto dest!: ReadBytes_shrinks)

declare echo_loop.simps [simp del]

definition Handle :: "EchoHandler \<Rightarrow> nat \<Rightarrow> Conn \<Rightarrow> EchoHandler \<times> Conn" where
  "Handle h client conn =
     (if closing h then (h, conn\<lparr>closed := True\<rparr>)
      else echo_loop (h\<lparr>activeConn := insert client (activeConn h)\<rparr>) client conn)"


section \<open>Properties of the sharded map\<close>

subsection \<open>The shard index\<close>

lemma mask_index_lt:
  fixes h :: "32 word"
  assumes "0 < L"
  shows "unat (h AND (of_nat L - 1)) < L"
proof (cases "L < 2 ^ 32")
  case True
  have "(of_nat L :: 32 word) - 1 = of_nat (L - 1)"
    using assms by (simp add: of_nat_diff)
  moreover have "unat (of_nat (L - 1) :: 32 word) = L - 1"
    using True by (simp add: unat_of_nat take_bit_nat_eq_self)
  moreover have "h AND (of_nat L - 1) \<le> of_nat L - 1"
    by (rule word_and_le1)
  ultimately have "unat (h AND (of_nat L - 1)) \<le> L - 1"
    by (metis word_le_nat_alt)
  then show ?thesis using assms by linarith
next
  case False
  have "unat (h AND (of_nat L - 1)) < 2 ^ 32"
    using unsigned_less[of "h AND (of_nat L - 1)"] by simp
  then show ?thesis using False by linarith
qed

lemma spread_in_range:
  assumes "table d \<noteq> []"
  shows "\<exists>i. spread (Some d) key = Inr i \<and> unat i < length (table d)"
  using assms mask_index_lt[of "length (table d)" "fnv32 key"]
  by (simp add: spread_def Let_def)

subsection \<open>Capacity rounding\<close>

text \<open>
  The five shifts of \<open>computeCapacity\<close> copy every set bit of \<open>param - 1\<close> into the 31
  positions below it.  \<open>smeared m w s\<close>: \<open>s\<close> has exactly the bits that lie at most
  \<open>w - 1\<close> positions below a set bit of \<open>m\<close>.
\<close>

lemma nat_high_bits_clear:
  fixes k :: nat
  assumes "k < 2 ^ n" "n \<le> j"
  shows "\<not> bit k j"
proof -
  have "(2::nat) ^ n \<le> 2 ^ j" using assms(2) by (simp add: power_increasing)
  then have "k < 2 ^ j" using assms(1) by linarith
  then have "k div 2 ^ j = 0" by simp
  then show ?thesis by (simp add: bit_iff_odd)
qed

lemma nat_top_bit_set:
  fixes k :: nat
  assumes "2 ^ t \<le> k" "k < 2 ^ Suc t"
  shows "bit k t"
proof -
  have "k div 2 ^ t < 2" using assms(2) by (simp add: less_mult_imp_div_less)
  moreover have "0 < k div 2 ^ t" using assms(1) by (simp add: div_greater_zero_iff)
  ultimately have "k div 2 ^ t = 1" by linarith
  then show ?thesis by (simp add: bit_iff_odd)
qed

lemma word_bit_unat: "bit (w :: go_int) j \<longleftrightarrow> bit (unat w) j"
  by (metis bit_unsigned_iff possible_bit)

definition smeared :: "go_int \<Rightarrow> nat \<Rightarrow> go_int \<Rightarrow> bool" where
  "smeared m w s \<longleftrightarrow> (\<forall>i. bit s i \<longleftrightarrow> (\<exists>c<w. bit m (i + c)))"

lemma smeared_start: "smeared m 1 m"
  by (simp add: smeared_def)

lemma smeared_sign_clear:
  assumes "smeared m w s" "unat m < 2 ^ 32"
  shows "\<not> bit s 63"
proof
  assume "bit s 63"
  then obtain c where "bit m (63 + c)" using assms(1) by (auto simp: smeared_def)
  then have "bit (unat m) (63 + c)" by (simp add: word_bit_unat)
  moreover have "\<not> bit (unat m) (63 + c)"
    by (rule nat_high_bits_clear[OF assms(2)]) simp
  ultimately show False by simp
qed

lemma signed_drop_bit_sign_clear:
  fixes s :: go_int
  assumes "\<not> bit s 63"
  shows "signed_drop_bit k s = drop_bit k s"
proof (rule bit_word_eqI)
  fix n assume "n < LENGTH(64)"
  show "bit (signed_drop_bit k s) n = bit (drop_bit k s) n"
    using assms by (auto simp: bit_signed_drop_bit_iff bit_drop_bit_eq dest: bit_imp_le_length)
qed

lemma smeared_step:
  assumes "smeared m w s" "unat m < 2 ^ 32"
  shows "smeared m (2 * w) (s OR signed_drop_bit w s)"
proof -
  have sd: "signed_drop_bit w s = drop_bit w s"
    by (rule signed_drop_bit_sign_clear[OF smeared_sign_clear[OF assms]])
  have "bit (s OR drop_bit w s) i \<longleftrightarrow> (\<exists>c<2 * w. bit m (i + c))" for i
  proof -
    have "bit (s OR drop_bit w s) i \<longleftrightarrow> (\<exists>c<w. bit m (i + c)) \<or> (\<exists>c<w. bit m (w + i + c))"
      using assms(1) by (simp add: bit_or_iff bit_drop_bit_eq smeared_def)
    also have "\<dots> \<longleftrightarrow> (\<exists>c<2 * w. bit m (i + c))"
    proof
      assume "(\<exists>c<w. bit m (i + c)) \<or> (\<exists>c<w. bit m (w + i + c))"
      then show "\<exists>c<2 * w. bit m (i + c)"
      proof
        assume "\<exists>c<w. bit m (i + c)"
        then obtain c where "c < w" "bit m (i + c)" by blast
        then show ?thesis by (intro exI[of _ c]) simp
      next
        assume "\<exists>c<w. bit m (w + i + c)"
        then obtain c where "c < w" "bit m (w + i + c)" by blast
        then show ?thesis by (intro exI[of _ "w + c"]) (simp add: ac_simps)
      qed
    next
      assume "\<exists>c<2 * w. bit m (i + c)"
      then obtain c where c: "c < 2 * w" "bit m (i + c)" by blast
      show "(\<exists>c<w. bit m (i + c)) \<or> (\<exists>c<w. bit m (w + i + c))"
      proof (cases "c < w")
        case True
        then show ?thesis using c by blast
      next
        case False
        then have "c - w < w" "w + i + (c - w) = i + c" using c(1) by simp_all
        then show ?thesis using c(2) by metis
      qed
    qed
    finally show ?thesis .
  qed
  then show ?thesis by (simp add: smeared_def sd)
qed

lemma smeared_32_is_mask:
  assumes "smeared m 32 s" "2 ^ t \<le> unat m" "unat m < 2 ^ Suc t" "t < 32"
  shows "s = mask (Suc t)"
proof (rule bit_word_eqI)
  fix i assume "i < LENGTH(64)"
  have top: "bit m t" using nat_top_bit_set[OF assms(2,3)] by (simp add: word_bit_unat)
  have high: "\<not> bit m j" if "Suc t \<le> j" for j
    using nat_high_bits_clear[OF assms(3) that] by (simp add: word_bit_unat)
  have "bit s i \<longleftrightarrow> i \<le> t"
  proof
    assume "bit s i"
    then obtain c where "bit m (i + c)" using assms(1) by (auto simp: smeared_def)
    then have "\<not> Suc t \<le> i + c" using high by blast
    then show "i \<le> t" by simp
  next
    assume "i \<le> t"
    then have "t - i < 32" "i + (t - i) = t" using assms(4) by simp_all
    then show "bit s i" using top assms(1) unfolding smeared_def by metis
  qed
  then show "bit s i = bit (mask (Suc t) :: go_int) i"
    using \<open>i < LENGTH(64)\<close> by (simp add: bit_mask_iff less_Suc_eq_le)
qed


lemma smear_mask:
  fixes m :: go_int
  assumes "2 ^ t \<le> unat m" "unat m < 2 ^ Suc t" "t < 32"
  shows "(let n = m;
              n = n OR signed_drop_bit 1 n;
              n = n OR signed_drop_bit 2 n;
              n = n OR signed_drop_bit 4 n;
              n = n OR signed_drop_bit 8 n;
              n = n OR signed_drop_bit 16 n
          in n) = mask (Suc t)"
proof -
  have "(2::nat) ^ Suc t \<le> 2 ^ 32" using assms(3) by (intro power_increasing) simp_all
  then have small: "unat m < 2 ^ 32" using assms(2) by linarith
  note step = smeared_step[OF _ small]
  have "smeared m 32 (let n = m;
              n = n OR signed_drop_bit 1 n;
              n = n OR signed_drop_bit 2 n;
              n = n OR signed_drop_bit 4 n;
              n = n OR signed_drop_bit 8 n;
              n = n OR signed_drop_bit 16 n
          in n)"
    using step[OF step[OF step[OF step[OF step[OF smeared_start]]]]]
    by (simp add: Let_def)
  then show ?thesis by (rule smeared_32_is_mask[OF _ assms])
qed



lemma small_pow_int: "k \<le> 32 \<Longrightarrow> (2::int) ^ k \<le> 2 ^ 32"
  by (intro power_increasing) simp_all

lemma sint_of_small_int:
  assumes "0 \<le> x" "x \<le> 2 ^ 32"
  shows "sint (word_of_int x :: go_int) = x"
proof -
  have "signed_take_bit 63 x = x"
    using assms by (intro signed_take_bit_int_eq_self) simp_all
  then show ?thesis by (simp add: signed_of_int)
qed

lemma uint_of_small_int:
  assumes "0 \<le> x" "x \<le> 2 ^ 32"
  shows "uint (word_of_int x :: go_int) = x"
proof -
  have "take_bit 64 x = x"
    using assms by (intro take_bit_int_eq_self) simp_all
  then show ?thesis by (simp add: uint_word_of_int_eq)
qed

lemma unat_pred_of_sint:
  fixes param :: go_int
  assumes "16 < sint param" "sint param \<le> 2 ^ 32"
  shows "int (unat (param - 1)) = sint param - 1"
proof -
  have "param - 1 = word_of_int (sint param - 1)" by simp
  then have "uint (param - 1) = sint param - 1"
    using uint_of_small_int[of "sint param - 1"] assms by simp
  then show ?thesis by simp
qed

lemma sint_pow2_small:
  assumes "k \<le> 32"
  shows "sint (2 ^ k :: go_int) = 2 ^ k"
proof -
  have "(2 ^ k :: go_int) = word_of_int (2 ^ k)" by simp
  then show ?thesis
    using sint_of_small_int[of "2 ^ k"] small_pow_int[OF assms] by simp
qed

lemma mask_Suc_plus_1: "(mask (Suc t) :: go_int) + 1 = 2 ^ Suc t"
  by (simp add: inc_mask_eq_exp)

lemma mask_not_neg:
  assumes "t < 32"
  shows "\<not> (mask (Suc t) :: go_int) <s 0"
proof -
  have "(mask (Suc t) :: go_int) = word_of_int (2 ^ Suc t - 1)"
    by (simp add: mask_eq_exp_minus_1)
  moreover have "(2::int) ^ Suc t \<le> 2 ^ 32" using assms by (intro small_pow_int) simp
  ultimately have "sint (mask (Suc t) :: go_int) = 2 ^ Suc t - 1"
    using sint_of_small_int[of "2 ^ Suc t - 1"] by simp
  moreover have "\<not> 2 * (2::int) ^ t < 1"
  proof -
    have "(1::int) \<le> 2 ^ t" by (rule one_le_power) simp
    then show ?thesis by linarith
  qed
  ultimately show ?thesis by (simp add: word_sless_alt)
qed

lemma computeCapacity_pow2:
  assumes "16 < sint param" "sint param \<le> 2 ^ 32"
  shows "\<exists>t. t < 32 \<and> computeCapacity param = 2 ^ Suc t \<and> 2 ^ t < sint param \<and> sint param \<le> 2 ^ Suc t"
proof -
  let ?m = "param - 1"
  have um: "int (unat ?m) = sint param - 1" by (rule unat_pred_of_sint[OF assms])
  then have "1 \<le> unat ?m" using assms(1) by linarith
  then obtain t where t: "2 ^ t \<le> unat ?m" "unat ?m < 2 ^ (t + 1)"
    using ex_power_ivl1[of 2 "unat ?m"] by auto
  have "int (unat ?m) < int (2 ^ 32)" using um assms(2) by simp
  then have "unat ?m < 2 ^ 32" by (simp only: of_nat_less_iff)
  then have "(2::nat) ^ t < 2 ^ 32" using t(1) by linarith
  then have t32: "t < 32" by (rule power_less_imp_less_exp[rotated]) simp
  have sm: "(let n = ?m;
              n = n OR signed_drop_bit 1 n;
              n = n OR signed_drop_bit 2 n;
              n = n OR signed_drop_bit 4 n;
              n = n OR signed_drop_bit 8 n;
              n = n OR signed_drop_bit 16 n
          in n) = mask (Suc t)"
    using t t32 by (intro smear_mask) simp_all
  have "\<not> param \<le>s 16" using assms(1) by (simp add: word_sle_eq)
  then have "computeCapacity param = 2 ^ Suc t"
    using sm mask_not_neg[OF t32] mask_Suc_plus_1[of t]
    by (simp add: computeCapacity_def Let_def)
  moreover have "2 ^ t < sint param"
  proof -
    have "int (2 ^ t) \<le> int (unat ?m)" using t(1) by (simp only: of_nat_le_iff)
    then show ?thesis using um by simp
  qed
  moreover have "sint param \<le> 2 ^ Suc t"
  proof -
    have "int (unat ?m) < int (2 ^ Suc t)" using t(2) by (simp only: of_nat_less_iff Suc_eq_plus1)
    then show ?thesis using um by simp
  qed
  ultimately show ?thesis using t32 by blast
qed


lemma computeCapacity_exponent:
  assumes "sint param \<le> 2 ^ 32"
  shows "\<exists>k. 4 \<le> k \<and> k \<le> 32 \<and> computeCapacity param = 2 ^ k \<and> sint param \<le> 2 ^ k \<and>
             (4 < k \<longrightarrow> 2 ^ (k - 1) < sint param)"
proof (cases "sint param \<le> 16")
  case True
  then have "computeCapacity param = 2 ^ 4"
    by (simp add: computeCapacity_def word_sle_eq)
  then show ?thesis using True by (intro exI[of _ 4]) simp
next
  case False
  then obtain t where t: "t < 32" "computeCapacity param = 2 ^ Suc t"
      "2 ^ t < sint param" "sint param \<le> 2 ^ Suc t"
    using computeCapacity_pow2[of param] assms by auto
  have "4 \<le> Suc t"
  proof (rule ccontr)
    assume "\<not> 4 \<le> Suc t"
    then have "Suc t \<le> 4" by simp
    then have "(2::int) ^ Suc t \<le> 2 ^ 4" by (intro power_increasing) simp_all
    then show False using t(4) False by simp
  qed
  then show ?thesis using t by (intro exI[of _ "Suc t"]) simp
qed

lemma unat_pow2_small:
  assumes "k \<le> 32"
  shows "unat (2 ^ k :: go_int) = 2 ^ k"
proof -
  have "uint (2 ^ k :: go_int) = 2 ^ k"
    using uint_of_small_int[of "2 ^ k"] small_pow_int[OF assms] by simp
  then have "int (unat (2 ^ k :: go_int)) = int (2 ^ k)" by simp
  then show ?thesis by (simp only: of_nat_eq_iff)
qed

text \<open>
  C4 (as the code has it).  For every request of at most \<open>2 ^ 32\<close>, \<open>computeCapacity\<close>
  returns the smallest power of two that is at least 16 and at least the request; this
  includes the request 1, for which it returns 16.  The single-shard case is
  \<open>MakeConcurrent\<close>'s own: a request of 1 builds exactly one shard, and a request
  between 2 and \<open>2 ^ 32\<close> builds \<open>computeCapacity\<close> of it many shards.
\<close>

theorem computeCapacity_rounds_up:
  assumes "sint param \<le> 2 ^ 32"
  shows "(\<exists>k. sint (computeCapacity param) = 2 ^ k \<and> (16::int) \<le> 2 ^ k \<and> sint param \<le> 2 ^ k \<and>
              (\<forall>j. (16::int) \<le> 2 ^ j \<and> sint param \<le> 2 ^ j \<longrightarrow> (2::int) ^ k \<le> 2 ^ j)) \<and>
         (\<exists>d. (MakeConcurrent 1 :: panic + 'v ConcurrentDict option) = Inr (Some d) \<and>
              length (table d) = 1 \<and> count d = 0 \<and> shardCount d = 1) \<and>
         (2 \<le> sint param \<longrightarrow>
            (\<exists>d. (MakeConcurrent param :: panic + 'v ConcurrentDict option) = Inr (Some d) \<and>
                 int (length (table d)) = sint (computeCapacity param) \<and>
                 count d = 0 \<and> shardCount d = computeCapacity param))"
proof -
  obtain k where k: "4 \<le> k" "k \<le> 32" "computeCapacity param = 2 ^ k" "sint param \<le> 2 ^ k"
      "4 < k \<longrightarrow> 2 ^ (k - 1) < sint param"
    using computeCapacity_exponent[OF assms] by blast
  have sk: "sint (computeCapacity param) = 2 ^ k"
    using k(2,3) by (simp add: sint_pow2_small)
  have ge16: "(16::int) \<le> 2 ^ k"
  proof -
    have "(2::int) ^ 4 \<le> 2 ^ k" using k(1) by (intro power_increasing) simp_all
    then show ?thesis by simp
  qed
  have least: "(2::int) ^ k \<le> 2 ^ j" if "(16::int) \<le> 2 ^ j" "sint param \<le> 2 ^ j" for j
  proof (cases "4 < k")
    case True
    then have "(2::int) ^ (k - 1) < 2 ^ j" using k(5) that(2) by linarith
    then have "k - 1 < j" by (rule power_less_imp_less_exp[rotated]) simp
    then have "k \<le> j" by simp
    then show ?thesis by (intro power_increasing) simp_all
  next
    case False
    then have "k = 4" using k(1) by simp
    then show ?thesis using that(1) by simp
  qed
  have part1: "\<exists>k. sint (computeCapacity param) = 2 ^ k \<and> (16::int) \<le> 2 ^ k \<and> sint param \<le> 2 ^ k \<and>
              (\<forall>j. (16::int) \<le> 2 ^ j \<and> sint param \<le> 2 ^ j \<longrightarrow> (2::int) ^ k \<le> 2 ^ j)"
    using sk ge16 k(4) least by blast
  have part2: "\<exists>d. (MakeConcurrent 1 :: panic + 'v ConcurrentDict option) = Inr (Some d) \<and>
              length (table d) = 1 \<and> count d = 0 \<and> shardCount d = 1"
    by (simp add: MakeConcurrent_def word_sle_eq)
  have part3: "\<exists>d. (MakeConcurrent param :: panic + 'v ConcurrentDict option) = Inr (Some d) \<and>
                 int (length (table d)) = sint (computeCapacity param) \<and>
                 count d = 0 \<and> shardCount d = computeCapacity param"
    if "2 \<le> sint param"
  proof -
    have "\<not> param \<le>s 0" using that by (simp add: word_sle_eq)
    moreover have "param \<noteq> 1" using that by auto
    moreover have "\<not> computeCapacity param <s 0" using sk by (simp add: word_sless_alt)
    moreover have "int (unat (computeCapacity param)) = sint (computeCapacity param)"
      using k(2,3) sk by (simp add: unat_pow2_small)
    ultimately show ?thesis by (simp add: MakeConcurrent_def Let_def)
  qed
  show ?thesis using part1 part2 part3 by blast
qed

theorem computeCapacity_rounds_up_witness:
  "sint (1000 :: go_int) \<le> 2 ^ 32 \<and> computeCapacity 1000 = 1024 \<and>
   (\<exists>d. (MakeConcurrent 1000 :: panic + nat ConcurrentDict option) = Inr (Some d) \<and>
        int (length (table d)) = sint (computeCapacity 1000))"
proof -
  have small: "sint (1000 :: go_int) \<le> 2 ^ 32" by simp
  have cap: "computeCapacity 1000 = 1024"
    by (simp add: computeCapacity_def Let_def word_sle_eq word_sless_alt)
  have "\<exists>d. (MakeConcurrent 1000 :: panic + nat ConcurrentDict option) = Inr (Some d) \<and>
        int (length (table d)) = sint (computeCapacity 1000)"
    using computeCapacity_rounds_up[OF small, where ?'v = nat] by auto
  then show ?thesis using small cap by blast
qed

text \<open>
  The claim as the spec words it fails twice: \<open>computeCapacity 1\<close> is 16, not 1, and
  beyond \<open>2 ^ 32\<close> the result need not be a power of two, the shifts stopping at 16.
\<close>

theorem computeCapacity_counterexample:
  "computeCapacity 1 \<noteq> 1 \<and> computeCapacity 1 = 16 \<and>
   sint (computeCapacity 4294967297) = 8589934591 \<and>
   \<not> (\<exists>k. sint (computeCapacity 4294967297) = 2 ^ k)"
proof -
  have v: "sint (computeCapacity 4294967297) = 8589934591"
    by (simp add: computeCapacity_def Let_def word_sle_eq word_sless_alt)
  have "(8589934591 :: int) \<noteq> 2 ^ k" for k
  proof (cases k)
    case 0
    then show ?thesis by simp
  next
    case (Suc j)
    have "odd (8589934591 :: int)" by simp
    moreover have "even ((2::int) ^ Suc j)" by simp
    ultimately show ?thesis unfolding Suc by metis
  qed
  moreover have "computeCapacity 1 = 16"
    by (simp add: computeCapacity_def word_sle_eq)
  ultimately show ?thesis using v by simp
qed


subsection \<open>Put, Remove and the counter\<close>

text \<open>
  C6.  On a map with at least one shard, \<open>Put\<close> returns 1 exactly when \<open>Get\<close> did not
  find the key just before the call, and then the counter has gone up by one; it
  returns 0 exactly when the key was found, and then the counter is as it was.  Either
  way \<open>Get\<close> finds the new value under the key afterwards.
\<close>

theorem Put_inserted_flag:
  assumes "table d \<noteq> []"
  shows "\<exists>r d' old found.
           Put (Some d) key val = Inr (r, d') \<and>
           Get (Some d) key = Inr (old, found) \<and>
           (r = 1 \<longleftrightarrow> \<not> found) \<and> (r = 0 \<longleftrightarrow> found) \<and>
           count d' = (if found then count d else count d + 1) \<and>
           Get (Some d') key = Inr (val, True)"
proof -
  obtain i where i: "spread (Some d) key = Inr i" "unat i < length (table d)"
    using spread_in_range[OF assms] by blast
  show ?thesis
  proof (cases "(table d ! unat i) key")
    case None
    then show ?thesis
      using i
      by (auto simp: Put_def Get_def getShard_def store_shard_def addCount_def bindP_def
                     spread_def Let_def split: if_splits)
  next
    case (Some old)
    then show ?thesis
      using i
      by (auto simp: Put_def Get_def getShard_def store_shard_def addCount_def bindP_def
                     spread_def Let_def split: if_splits)
  qed
qed

theorem Put_inserted_flag_witness:
  "table \<lparr>table = [Map.empty], count = 0, shardCount = 1\<rparr> \<noteq> [] \<and>
   (\<exists>d1 d2.
      Put (Some \<lparr>table = [Map.empty], count = 0, shardCount = 1\<rparr>) ''k'' (Some (7::nat)) = Inr (1, d1) \<and>
      count d1 = 1 \<and> Get (Some d1) ''k'' = Inr (Some 7, True) \<and>
      Put (Some d1) ''k'' (Some 8) = Inr (0, d2) \<and>
      count d2 = 1 \<and> Get (Some d2) ''k'' = Inr (Some 8, True))"
  using Put_inserted_flag[of "\<lparr>table = [Map.empty], count = 0, shardCount = 1\<rparr>" "''k''" "Some (7::nat)"]
  by (simp add: Put_def Get_def getShard_def store_shard_def addCount_def bindP_def
                spread_def Let_def fnv32_def)

text \<open>\<open>Remove\<close> never touches the counter: \<open>decreaseCount\<close> has no caller.\<close>

lemma Remove_keeps_count:
  assumes "Remove (Some d) key = Inr (res, d')"
  shows "count d' = count d"
  using assms
  by (auto simp: Remove_def bindP_def store_shard_def split: sum.splits option.splits)

text \<open>
  C1 (the run that shows the defect).  On a fresh single-shard map, \<open>Put\<close> of a new key
  brings \<open>Len\<close> to 1; \<open>Remove\<close> of that key returns the stored value and 1 and the key
  is gone, but \<open>Len\<close> still answers 1.
\<close>

theorem Remove_does_not_decrement:
  "\<exists>d0 d1 d2.
     (MakeConcurrent 1 :: panic + nat ConcurrentDict option) = Inr (Some d0) \<and>
     Len (Some d0) = Inr 0 \<and>
     Put (Some d0) ''a'' (Some 7) = Inr (1, d1) \<and>
     Len (Some d1) = Inr 1 \<and>
     Remove (Some d1) ''a'' = Inr ((Some 7, 1), d2) \<and>
     Get (Some d2) ''a'' = Inr (None, False) \<and>
     Len (Some d2) = Inr 1"
  by (simp add: MakeConcurrent_def Put_def Get_def Remove_def Len_def spread_def getShard_def
                store_shard_def addCount_def bindP_def word_sle_eq fnv32_def)

subsection \<open>The nil receiver\<close>

text \<open>
  C9.  For a requested shard count of zero or less, \<open>MakeConcurrent\<close> returns nil, and
  every method called on that nil pointer panics.
\<close>

theorem nil_dict_panics:
  assumes "requested \<le>s 0"
  shows "\<exists>dict.
           (MakeConcurrent requested :: panic + 'v ConcurrentDict option) = Inr dict \<and>
           dict = None \<and>
           isl (spread dict key) \<and> isl (getShard dict index) \<and>
           isl (Get dict key) \<and> isl (GetWithLock dict key) \<and> isl (Len dict) \<and>
           isl (Put dict key val) \<and> isl (PutWithLock dict key val) \<and>
           isl (PutIfAbsent dict key val) \<and> isl (PutIfAbsentWithLock dict key val) \<and>
           isl (PutIfExists dict key val) \<and> isl (PutIfExistsWithLock dict key val) \<and>
           isl (Remove dict key) \<and> isl (RemoveWithLock dict key) \<and>
           isl (addCount dict) \<and> isl (decreaseCount dict) \<and>
           isl (ForEach dict ord consumer s) \<and> isl (Keys dict ord) \<and>
           isl (RandomKeys dict limit ord) \<and>
           (\<exists>p. RandomDistinctKeys dict limit ord draws = Some (Inl p)) \<and>
           isl (Clear dict)"
  using assms
  by (simp add: MakeConcurrent_def spread_def getShard_def Get_def GetWithLock_def Len_def
                Put_def PutWithLock_def PutIfAbsent_def PutIfAbsentWithLock_def
                PutIfExists_def PutIfExistsWithLock_def Remove_def RemoveWithLock_def
                addCount_def decreaseCount_def ForEach_def Keys_def RandomKeys_def
                RandomDistinctKeys_def Clear_def)

theorem nil_dict_panics_witness:
  "(- 3 :: go_int) \<le>s 0 \<and>
   (MakeConcurrent (- 3) :: panic + nat ConcurrentDict option) = Inr None \<and>
   Get (None :: nat ConcurrentDict option) ''k'' = Inl (Panic ''dict is nil !'') \<and>
   Put (None :: nat ConcurrentDict option) ''k'' (Some 1) = Inl (Panic ''dict is nil !'') \<and>
   Len (None :: nat ConcurrentDict option) = Inl (Panic ''dict is nil !'')"
proof -
  have neg: "(- 3 :: go_int) \<le>s 0" by (simp add: word_sle_eq)
  have "(MakeConcurrent (- 3) :: panic + nat ConcurrentDict option) = Inr None"
    using nil_dict_panics[OF neg, where key = "''k''" and val = "Some (1::nat)" and index = 0
        and ord = "\<lambda>_. []" and consumer = "\<lambda>(s::unit) k v. (True, s)" and s = "()"
        and limit = 0 and draws = "[]"]
    by auto
  then show ?thesis using neg by (simp add: Get_def Put_def Len_def)
qed

end
